theory Spec2Isabelle
  imports Main
begin

section \<open>The ABC tokenizer (src/app/utils/abc-language.ts)\<close>

subsection \<open>The string stream handed to the tokenizer\<close>

text \<open>
  \<open>abcLanguage\<close> is a stream parser: its \<open>token\<close> function receives a stream object and
  the mutable scanner state. The stream is the editor library's \<open>StringStream\<close>: a string
  and a read position in it. The methods that \<open>token\<close> calls are modelled below, each
  returning the stream it leaves behind (the source mutates \<open>stream.pos\<close> in place).
\<close>

record StringStream =
  string :: string
  pos :: nat

record abc_state =
  inHeader :: bool

definition startState :: abc_state where
  "startState = \<lparr>inHeader = True\<rparr>"

definition rest :: "StringStream \<Rightarrow> string" where
  \<comment> \<open>\<open>stream.string.slice(stream.pos)\<close>\<close>
  "rest s = drop (pos s) (string s)"

definition eol :: "StringStream \<Rightarrow> bool" where
  "eol s = (pos s \<ge> length (string s))"

definition sol :: "StringStream \<Rightarrow> bool" where
  "sol s = (pos s = 0)"

definition peek :: "StringStream \<Rightarrow> char option" where
  "peek s = (case rest s of [] \<Rightarrow> None | c # _ \<Rightarrow> Some c)"

definition next_ch :: "StringStream \<Rightarrow> char option \<times> StringStream" where
  \<comment> \<open>\<open>stream.next()\<close>: at the end of the string it returns undefined and does not move\<close>
  "next_ch s = (case rest s of [] \<Rightarrow> (None, s) | c # _ \<Rightarrow> (Some c, s\<lparr>pos := pos s + 1\<rparr>))"

definition isSpace :: "char \<Rightarrow> bool" where
  \<comment> \<open>the class \<open>[\s\u00a0]\<close> on the characters of the 8-bit \<open>char\<close> type\<close>
  "isSpace c = (c \<in> set [CHR 0x09, CHR 0x0A, CHR 0x0B, CHR 0x0C, CHR 0x0D, CHR 0x20, CHR 0xA0])"

definition eatWhile :: "(char \<Rightarrow> bool) \<Rightarrow> StringStream \<Rightarrow> bool \<times> StringStream" where
  \<comment> \<open>advance while the character under the position satisfies the test; true iff it moved\<close>
  "eatWhile f s =
     (let n = length (takeWhile f (rest s)) in (0 < n, s\<lparr>pos := pos s + n\<rparr>))"

definition eatSpace :: "StringStream \<Rightarrow> bool \<times> StringStream" where
  "eatSpace s = eatWhile isSpace s"

definition skipToEnd :: "StringStream \<Rightarrow> StringStream" where
  "skipToEnd s = s\<lparr>pos := length (string s)\<rparr>"

definition match :: "(string \<Rightarrow> nat option) \<Rightarrow> StringStream \<Rightarrow> StringStream option" where
  \<comment> \<open>\<open>stream.match(re)\<close>: the pattern is tried on \<open>rest s\<close>; a match that does not begin at
      index 0 counts as no match; on success the position moves past the matched text.
      A pattern is given as the function from the remaining text to the length of its match
      at index 0.\<close>
  "match re s = (case re (rest s) of None \<Rightarrow> None | Some n \<Rightarrow> Some (s\<lparr>pos := pos s + n\<rparr>))"

subsection \<open>The regular expressions of \<open>token\<close>\<close>

definition re_header :: "string \<Rightarrow> nat option" where
  \<comment> \<open>\<open>/^[A-Za-z]:/\<close>\<close>
  "re_header r =
     (case r of
        c # d # _ \<Rightarrow>
          if c \<in> set ''ABCDEFGHIJKLMNOPQRSTUVWXYZabcdefghijklmnopqrstuvwxyz'' \<and> d = CHR '':''
          then Some 2 else None
      | _ \<Rightarrow> None)"

definition re_K :: "string \<Rightarrow> nat option" where
  \<comment> \<open>\<open>/^K:/\<close>\<close>
  "re_K r = (case r of c # d # _ \<Rightarrow> if c = CHR ''K'' \<and> d = CHR '':'' then Some 2 else None
             | _ \<Rightarrow> None)"

definition re_bar :: "string \<Rightarrow> nat option" where
  \<comment> \<open>\<open>/[\|:\[\]]/\<close>\<close>
  "re_bar r = (case r of c # _ \<Rightarrow> if c \<in> set ''|:[]'' then Some 1 else None | [] \<Rightarrow> None)"

definition re_note :: "string \<Rightarrow> nat option" where
  \<comment> \<open>\<open>/[A-Ga-g][',]*/\<close>\<close>
  "re_note r =
     (case r of
        c # cs \<Rightarrow>
          if c \<in> set ''ABCDEFGabcdefg''
          then Some (1 + length (takeWhile (\<lambda>x. x \<in> set [CHR 0x27, CHR '','']) cs))
          else None
      | [] \<Rightarrow> None)"

definition re_accidental :: "string \<Rightarrow> nat option" where
  \<comment> \<open>\<open>/[\^=_]{1,2}/\<close>\<close>
  "re_accidental r =
     (case r of
        c # cs \<Rightarrow>
          if c \<in> set ''^=_''
          then (case cs of d # _ \<Rightarrow> if d \<in> set ''^=_'' then Some 2 else Some 1 | [] \<Rightarrow> Some 1)
          else None
      | [] \<Rightarrow> None)"

definition digits :: "string \<Rightarrow> nat" where
  \<comment> \<open>the length of the leading run of \<open>\d\<close>\<close>
  "digits r = length (takeWhile (\<lambda>x. x \<in> set ''0123456789'') r)"

definition re_number :: "string \<Rightarrow> nat option" where
  \<comment> \<open>\<open>/\/?\d+/\<close>\<close>
  "re_number r =
     (case r of
        c # cs \<Rightarrow>
          if c = CHR ''/'' then (if 0 < digits cs then Some (1 + digits cs) else None)
          else if 0 < digits r then Some (digits r) else None
      | [] \<Rightarrow> None)"

definition re_rest :: "string \<Rightarrow> nat option" where
  \<comment> \<open>\<open>/[zxZ]/\<close>\<close>
  "re_rest r = (case r of c # _ \<Rightarrow> if c \<in> set ''zxZ'' then Some 1 else None | [] \<Rightarrow> None)"

definition re_slur :: "string \<Rightarrow> nat option" where
  \<comment> \<open>\<open>/[\(\)-]/\<close>\<close>
  "re_slur r = (case r of c # _ \<Rightarrow> if c \<in> set ''()-'' then Some 1 else None | [] \<Rightarrow> None)"

subsection \<open>\<open>token\<close>\<close>

text \<open>
  One call of \<open>token\<close>: the style name it returns (\<open>None\<close> for \<open>null\<close>), the stream and
  the scanner state it leaves. The branches are in the order of the source.
\<close>

definition token :: "StringStream \<Rightarrow> abc_state \<Rightarrow> string option \<times> StringStream \<times> abc_state" where
  "token stream state =
     (case eatSpace stream of
        (True, s1) \<Rightarrow> (None, s1, state)
      | (False, _) \<Rightarrow>
     (let char = peek stream in
      case (if inHeader state \<and> sol stream then match re_header stream else None) of
        Some s1 \<Rightarrow> (Some ''keyword'', s1, state)
      | None \<Rightarrow>
     (case match re_K stream of
        Some s1 \<Rightarrow> (Some ''keyword'', s1, state\<lparr>inHeader := False\<rparr>)
      | None \<Rightarrow>
      if char = Some CHR ''%'' then (Some ''comment'', skipToEnd stream, state) else
     (case match re_bar stream of
        Some s1 \<Rightarrow> (Some ''operator'', s1, state)
      | None \<Rightarrow>
     (case match re_note stream of
        Some s1 \<Rightarrow> (Some ''variableName'', s1, state)
      | None \<Rightarrow>
     (case match re_accidental stream of
        Some s1 \<Rightarrow> (Some ''modifier'', s1, state)
      | None \<Rightarrow>
     (case match re_number stream of
        Some s1 \<Rightarrow> (Some ''number'', s1, state)
      | None \<Rightarrow>
     (case match re_rest stream of
        Some s1 \<Rightarrow> (Some ''atom'', s1, state)
      | None \<Rightarrow>
      if char = Some (CHR 0x22)
      then (Some ''string'',
            snd (next_ch (snd (eatWhile (\<lambda>c. c \<noteq> CHR 0x22) (snd (next_ch stream))))), state)
      else
     (case match re_slur stream of
        Some s1 \<Rightarrow> (Some ''punctuation'', s1, state)
      | None \<Rightarrow> (None, snd (next_ch stream), state))))))))))"

definition abcHighlightStyle :: "(string \<times> string) list" where
  \<comment> \<open>style name returned by \<open>token\<close>, and the class it is rendered with\<close>
  "abcHighlightStyle =
     [(''keyword'', ''cm-abc-header''),
      (''variableName'', ''cm-abc-note''),
      (''number'', ''cm-abc-duration''),
      (''operator'', ''cm-abc-bar''),
      (''comment'', ''cm-abc-comment''),
      (''string'', ''cm-abc-chord''),
      (''modifier'', ''cm-abc-accidental''),
      (''atom'', ''cm-abc-rest''),
      (''punctuation'', ''cm-abc-slur'')]"

text \<open>
  \<open>adv s s'\<close>: from \<open>s\<close> to \<open>s'\<close> the string is kept and the position has moved forward,
  not past the end.
\<close>

definition adv :: "StringStream \<Rightarrow> StringStream \<Rightarrow> bool" where
  "adv s s' = (string s' = string s \<and> pos s < pos s' \<and> pos s' \<le> length (string s))"

subsection \<open>The driver: one line, then the lines of a document\<close>

text \<open>
  The editor library runs a stream parser one line at a time: the document is cut at its
  line breaks, each line is put in a fresh stream at position 0, and \<open>token\<close> is called
  until the stream is at its end; the scanner state is carried from one line to the next,
  starting from \<open>startState\<close>. A line break is never part of a stream. Each call is
  recorded as a step: the style returned, the position before and after, and the state
  left. A step whose style is \<open>None\<close> produces no highlighted token.
\<close>

type_synonym step = "string option \<times> nat \<times> nat \<times> abc_state"

function scan :: "StringStream \<Rightarrow> abc_state \<Rightarrow> step list \<times> abc_state" where
  "scan s st =
     (if eol s then ([], st)
      else (case token s st of
              (r, s', st') \<Rightarrow>
                (case scan s' st' of (steps, fin) \<Rightarrow> ((r, pos s, pos s', st') # steps, fin))))"
  by pat_completeness auto

text \<open>
  The termination proof of \<open>scan\<close> is given below, once the progress of \<open>token\<close> is
  proved. The library's loop also raises an error when a call leaves the position where
  it was; by that progress this never happens, and the loop is modelled without it.
\<close>

definition tokenizeLine :: "string \<Rightarrow> abc_state \<Rightarrow> step list \<times> abc_state" where
  "tokenizeLine line st = scan \<lparr>string = line, pos = 0\<rparr> st"

fun splitLines :: "string \<Rightarrow> string \<Rightarrow> string list" where
  \<comment> \<open>the lines of a text, cut at \<open>\r\n\<close>, \<open>\r\<close> or \<open>\n\<close>; the first argument collects the
      current line in reverse\<close>
  "splitLines cur [] = [rev cur]"
| "splitLines cur [c] =
     (if c = CHR 0x0A \<or> c = CHR 0x0D then [rev cur, []] else [rev (c # cur)])"
| "splitLines cur (c # d # cs) =
     (if c = CHR 0x0D \<and> d = CHR 0x0A then rev cur # splitLines [] cs
      else if c = CHR 0x0A \<or> c = CHR 0x0D then rev cur # splitLines [] (d # cs)
      else splitLines (c # cur) (d # cs))"

fun parseLines :: "string list \<Rightarrow> abc_state \<Rightarrow> step list list \<times> abc_state" where
  "parseLines [] st = ([], st)"
| "parseLines (l # ls) st =
     (case tokenizeLine l st of
        (steps, st') \<Rightarrow>
          (case parseLines ls st' of (others, fin) \<Rightarrow> (steps # others, fin)))"

definition tokenize :: "string \<Rightarrow> step list list \<times> abc_state" where
  "tokenize text = parseLines (splitLines [] text) startState"

definition span :: "string \<Rightarrow> step \<Rightarrow> string" where
  \<comment> \<open>the text a step consumed\<close>
  "span text x = (case x of (r, a, b, st) \<Rightarrow> take (b - a) (drop a text))"

definition lexeme :: "string \<Rightarrow> step \<Rightarrow> string option \<times> string \<times> bool" where
  \<comment> \<open>a step as: style, consumed text, \<open>inHeader\<close> after the step\<close>
  "lexeme line x = (case x of (r, a, b, st) \<Rightarrow> (r, take (b - a) (drop a line), inHeader st))"

definition lexemes :: "string \<Rightarrow> (string option \<times> string \<times> bool) list list" where
  "lexemes text = map2 (\<lambda>l. map (lexeme l)) (splitLines [] text) (fst (tokenize text))"

fun contiguous :: "nat \<Rightarrow> step list \<Rightarrow> nat \<Rightarrow> bool" where
  \<comment> \<open>the steps lead from offset \<open>a\<close> to offset \<open>b\<close>: each begins where the one before
      ended, and each is non-empty\<close>
  "contiguous a [] b = (a = b)"
| "contiguous a ((r, x, y, st) # steps) b = (x = a \<and> x < y \<and> contiguous y steps b)"

definition fallback :: "StringStream \<Rightarrow> abc_state \<Rightarrow> bool" where
  \<comment> \<open>no branch of \<open>token\<close> before the last one returns\<close>
  "fallback s st =
     (\<not> fst (eatSpace s)
      \<and> \<not> (inHeader st \<and> sol s \<and> match re_header s \<noteq> None)
      \<and> match re_K s = None
      \<and> peek s \<noteq> Some CHR ''%''
      \<and> match re_bar s = None
      \<and> match re_note s = None
      \<and> match re_accidental s = None
      \<and> match re_number s = None
      \<and> match re_rest s = None
      \<and> peek s \<noteq> Some (CHR 0x22)
      \<and> match re_slur s = None)"


section \<open>The editor component (src/app/components/AbcEditor.tsx)\<close>

subsection \<open>State\<close>

text \<open>
  The component keeps a reference \<open>viewRef\<close> to the editor widget it created, the boolean
  \<open>isInternalChangeRef\<close>, and whatever it has scheduled with \<open>setTimeout\<close>. The widget is
  an object that the reference, the cleanup closure and the timer closures all point to, so
  the widgets live in a store indexed by an identifier. Of a widget the model keeps what the
  component reads or sets: the document text, the main selection, whether it is editable,
  whether it was destroyed, and whether the update listener installed at creation holds an
  \<open>onSelectionChange\<close> callback (the prop is optional). The document is the string
  that \<open>doc.toString()\<close> gives; offsets are offsets into it. The widget keeps a text as
  its lines, so every text it is given (the initial document, the text a change inserts)
  is cut at \<open>\r\n\<close>, \<open>\r\<close> or \<open>\n\<close> and read back with the lines joined by \<open>\n\<close>:
  \<open>docText\<close>. What the component does to the outside (host callbacks, calls on the
  widget, console warnings) is recorded in order in \<open>trace\<close>.
\<close>

fun joinLines :: "string list \<Rightarrow> string" where
  "joinLines [] = []"
| "joinLines [l] = l"
| "joinLines (l # m # ls) = l @ CHR 0x0A # joinLines (m # ls)"

definition docText :: "string \<Rightarrow> string" where
  \<comment> \<open>a text as the widget stores it: carriage returns and CRLF pairs become \<open>\n\<close>\<close>
  "docText text = joinLines (splitLines [] text)"

record EditorView =
  doc :: string
  anchor :: nat
  head :: nat
  editable :: bool
  destroyed :: bool
  onSelectionChange_given :: bool

datatype transaction =
    Changes nat nat string
      \<comment> \<open>\<open>{changes: {from, to, insert}}\<close>\<close>
  | Select nat nat
      \<comment> \<open>\<open>{selection: {anchor, head}, effects: scrollIntoView(anchor, {y: "center", yMargin: 50})}\<close>\<close>
  | Reconfigure bool
      \<comment> \<open>\<open>{effects: editableCompartment.reconfigure(EditorView.editable.of(b))}\<close>\<close>

datatype event =
    OnChange string
  | OnSelectionChange nat nat
  | Dispatch nat transaction
  | Warn int int nat
  | Focus nat
  | Destroy nat

record component =
  views :: "nat \<Rightarrow> EditorView"
  nextView :: nat
  viewRef :: "nat option"
  isInternalChangeRef :: bool
  timers :: "nat list"
  trace :: "event list"

definition unallocated :: EditorView where
  "unallocated = \<lparr>doc = [], anchor = 0, head = 0, editable = False, destroyed = True,
                   onSelectionChange_given = False\<rparr>"

definition initial :: component where
  \<comment> \<open>before the first effect runs: \<open>useRef(null)\<close>, \<open>useRef(false)\<close>\<close>
  "initial = \<lparr>views = (\<lambda>_. unallocated), nextView = 0, viewRef = None,
              isInternalChangeRef = False, timers = [], trace = []\<rparr>"

subsection \<open>The update listener and the widget's transactions\<close>

definition updateListener :: "bool \<Rightarrow> bool \<Rightarrow> EditorView \<Rightarrow> event list" where
  \<comment> \<open>the listener of lines 42-53, run by the widget after every update, on the new state\<close>
  "updateListener docChanged selectionSet v =
     (if docChanged then [OnChange (doc v)] else [])
     @ (if selectionSet \<and> onSelectionChange_given v
        then [OnSelectionChange (min (anchor v) (head v)) (max (anchor v) (head v))] else [])"

definition dispatchChanges ::
  "(nat \<Rightarrow> nat) \<Rightarrow> nat \<Rightarrow> nat \<Rightarrow> nat \<Rightarrow> string \<Rightarrow> component \<Rightarrow> component" where
  \<comment> \<open>\<open>view.dispatch({changes: {from, to, insert: ins}})\<close>: the text between the offsets is
      replaced by the inserted text as the widget stores it, the widget moves its selection
      through the change (\<open>mapPos\<close>, the widget's own rule, is a parameter), and the
      listener runs with \<open>docChanged\<close> unless the change is empty\<close>
  "dispatchChanges mapPos i from to ins s =
     (let v = views s i;
          v' = v\<lparr>doc := take from (doc v) @ docText ins @ drop to (doc v),
                 anchor := mapPos (anchor v), head := mapPos (head v)\<rparr>
      in s\<lparr>views := (views s)(i := v'),
           trace := trace s @ [Dispatch i (Changes from to ins)]
                    @ updateListener (from \<noteq> to \<or> ins \<noteq> []) False v'\<rparr>)"

definition dispatchSelection :: "nat \<Rightarrow> nat \<Rightarrow> nat \<Rightarrow> component \<Rightarrow> component" where
  \<comment> \<open>\<open>view.dispatch({selection: {anchor, head}, effects: scrollIntoView(..)})\<close>: the
      listener runs with \<open>selectionSet\<close>\<close>
  "dispatchSelection i a h s =
     (let v' = (views s i)\<lparr>anchor := a, head := h\<rparr>
      in s\<lparr>views := (views s)(i := v'),
           trace := trace s @ [Dispatch i (Select a h)] @ updateListener False True v'\<rparr>)"

definition dispatchReconfigure :: "nat \<Rightarrow> bool \<Rightarrow> component \<Rightarrow> component" where
  "dispatchReconfigure i b s =
     (let v' = (views s i)\<lparr>editable := b\<rparr>
      in s\<lparr>views := (views s)(i := v'),
           trace := trace s @ [Dispatch i (Reconfigure b)] @ updateListener False False v'\<rparr>)"

definition userSelection :: "nat \<Rightarrow> nat \<Rightarrow> nat \<Rightarrow> component \<Rightarrow> component" where
  \<comment> \<open>the user moves the selection inside widget \<open>i\<close>: the widget updates and runs the
      listener with \<open>selectionSet\<close>\<close>
  "userSelection i a h s =
     (let v' = (views s i)\<lparr>anchor := a, head := h\<rparr>
      in s\<lparr>views := (views s)(i := v'), trace := trace s @ updateListener False True v'\<rparr>)"

definition userEdit :: "nat \<Rightarrow> string \<Rightarrow> nat \<Rightarrow> component \<Rightarrow> component" where
  \<comment> \<open>the user types inside widget \<open>i\<close>: new text (as the widget stores it), cursor at
      \<open>p\<close>; the listener runs with \<open>docChanged\<close> and \<open>selectionSet\<close>\<close>
  "userEdit i text p s =
     (let v' = (views s i)\<lparr>doc := docText text, anchor := p, head := p\<rparr>
      in s\<lparr>views := (views s)(i := v'),
           trace := trace s @ updateListener (docText text \<noteq> doc (views s i)) True v'\<rparr>)"

subsection \<open>The effects\<close>

definition effect_mount :: "bool \<Rightarrow> string \<Rightarrow> bool \<Rightarrow> bool \<Rightarrow> component \<Rightarrow> component \<times> nat option" where
  \<comment> \<open>lines 30-169; arguments: whether \<open>editorRef.current\<close> is set, and the props \<open>value\<close>,
      \<open>onSelectionChange\<close> (given or not) and \<open>disabled\<close> of the first render. The widget
      is created on \<open>value\<close> as it stores it. The second result is the widget captured by
      the cleanup closure, if one is returned.\<close>
  "effect_mount editorRef val cb disabled s =
     (if \<not> editorRef then (s, None)
      else (let i = nextView s;
                view = \<lparr>doc = docText val, anchor = 0, head = 0, editable = \<not> disabled,
                        destroyed = False, onSelectionChange_given = cb\<rparr>
            in (s\<lparr>views := (views s)(i := view), nextView := i + 1, viewRef := Some i\<rparr>,
                Some i)))"

definition effect_cleanup :: "nat \<Rightarrow> component \<Rightarrow> component" where
  \<comment> \<open>lines 165-168, for the widget \<open>i\<close> the closure captured\<close>
  "effect_cleanup i s =
     s\<lparr>views := (views s)(i := (views s i)\<lparr>destroyed := True\<rparr>),
       viewRef := None,
       trace := trace s @ [Destroy i]\<rparr>"

definition effect_value :: "(nat \<Rightarrow> nat) \<Rightarrow> string \<Rightarrow> component \<Rightarrow> component" where
  \<comment> \<open>lines 172-185\<close>
  "effect_value mapPos val s =
     (case viewRef s of
        None \<Rightarrow> s
      | Some i \<Rightarrow>
          (let currentValue = doc (views s i)
           in if currentValue \<noteq> val
              then dispatchChanges mapPos i 0 (length currentValue) val s
              else s))"

definition effect_disabled :: "bool \<Rightarrow> component \<Rightarrow> component" where
  \<comment> \<open>lines 188-194\<close>
  "effect_disabled disabled s =
     (case viewRef s of None \<Rightarrow> s | Some i \<Rightarrow> dispatchReconfigure i (\<not> disabled) s)"

definition effect_selectedRange :: "(int \<times> int) option \<Rightarrow> component \<Rightarrow> component" where
  \<comment> \<open>lines 197-223; \<open>None\<close> is a \<open>selectedRange\<close> that is \<open>null\<close> or absent\<close>
  "effect_selectedRange selectedRange s =
     (let s1 =
        (case viewRef s of
           None \<Rightarrow> s
         | Some view \<Rightarrow>
             (case selectedRange of
                None \<Rightarrow> s
              | Some (from, to) \<Rightarrow>
                  if isInternalChangeRef s then s
                  else (let docLength = length (doc (views s view))
                        in if from \<ge> 0 \<and> to \<ge> 0 \<and> from \<le> int docLength \<and> to \<le> int docLength
                              \<and> from \<le> to
                           then (let s2 = dispatchSelection view (nat from) (nat to) s
                                 in s2\<lparr>timers := timers s2 @ [view]\<rparr>)
                           else s\<lparr>trace := trace s @ [Warn from to docLength]\<rparr>)))
      in s1\<lparr>isInternalChangeRef := False\<rparr>)"

definition timeout_focus :: "component \<Rightarrow> component" where
  \<comment> \<open>the oldest pending callback of line 215 fires: \<open>view.focus()\<close> on the widget it captured\<close>
  "timeout_focus s =
     (case timers s of [] \<Rightarrow> s | i # ts \<Rightarrow> s\<lparr>timers := ts, trace := trace s @ [Focus i]\<rparr>)"

definition mounted :: "string \<Rightarrow> component" where
  \<comment> \<open>the component after its first render with \<open>value\<close>, an \<open>onSelectionChange\<close> callback,
      no \<open>selectedRange\<close> and \<open>disabled = false\<close>: the four effects in source order\<close>
  "mounted val =
     effect_selectedRange None
       (effect_disabled False (effect_value id val (fst (effect_mount True val True False initial))))"


section \<open>Properties of the tokenizer\<close>

subsection \<open>Every call on unread input moves forward\<close>

text \<open>
  Each primitive of the stream keeps the string and never moves the position back or past
  the end, and every branch of \<open>token\<close> moves it when there is unread input. This is what
  makes the driver loop \<open>scan\<close> terminate.
\<close>

lemma match_props:
  assumes "match re s = Some s'" and "\<And>r n. re r = Some n \<Longrightarrow> 0 < n \<and> n \<le> length r"
  shows "string s' = string s \<and> pos s < pos s' \<and> pos s' \<le> length (string s)"
proof -
  from assms(1) obtain n where n: "re (rest s) = Some n" and s': "s' = s\<lparr>pos := pos s + n\<rparr>"
    by (auto simp: match_def split: option.splits)
  from assms(2)[OF n] have "0 < n" "n \<le> length (rest s)" by auto
  then show ?thesis using s' by (auto simp: rest_def)
qed

lemma re_header_len: "re_header r = Some n \<Longrightarrow> 0 < n \<and> n \<le> length r"
  by (auto simp: re_header_def split: list.splits if_splits)

lemma re_K_len: "re_K r = Some n \<Longrightarrow> 0 < n \<and> n \<le> length r"
  by (auto simp: re_K_def split: list.splits if_splits)

lemma re_bar_len: "re_bar r = Some n \<Longrightarrow> 0 < n \<and> n \<le> length r"
  by (auto simp: re_bar_def split: list.splits if_splits)

lemma re_note_len: "re_note r = Some n \<Longrightarrow> 0 < n \<and> n \<le> length r"
  by (auto simp: re_note_def length_takeWhile_le split: list.splits if_splits)

lemma re_accidental_len: "re_accidental r = Some n \<Longrightarrow> 0 < n \<and> n \<le> length r"
  by (auto simp: re_accidental_def split: list.splits if_splits)

lemma re_number_len: "re_number r = Some n \<Longrightarrow> 0 < n \<and> n \<le> length r"
  by (auto simp: re_number_def digits_def length_takeWhile_le split: list.splits if_splits)

lemma re_rest_len: "re_rest r = Some n \<Longrightarrow> 0 < n \<and> n \<le> length r"
  by (auto simp: re_rest_def split: list.splits if_splits)

lemma re_slur_len: "re_slur r = Some n \<Longrightarrow> 0 < n \<and> n \<le> length r"
  by (auto simp: re_slur_def split: list.splits if_splits)

lemmas match_facts =
  match_props[OF _ re_header_len] match_props[OF _ re_K_len] match_props[OF _ re_bar_len]
  match_props[OF _ re_note_len] match_props[OF _ re_accidental_len]
  match_props[OF _ re_number_len] match_props[OF _ re_rest_len] match_props[OF _ re_slur_len]

lemma eatWhile_props:
  "string (snd (eatWhile f s)) = string s \<and> pos s \<le> pos (snd (eatWhile f s))
   \<and> (pos s \<le> length (string s) \<longrightarrow> pos (snd (eatWhile f s)) \<le> length (string s))
   \<and> (fst (eatWhile f s) \<longleftrightarrow> pos s < pos (snd (eatWhile f s)))"
proof -
  have "length (takeWhile f (rest s)) \<le> length (string s) - pos s"
    using length_takeWhile_le[of f "rest s"] by (simp add: rest_def)
  then show ?thesis by (auto simp: eatWhile_def Let_def)
qed

lemma next_ch_props:
  "string (snd (next_ch s)) = string s \<and> pos s \<le> pos (snd (next_ch s))
   \<and> (pos s \<le> length (string s) \<longrightarrow> pos (snd (next_ch s)) \<le> length (string s))
   \<and> (pos s < length (string s) \<longrightarrow> pos (snd (next_ch s)) = pos s + 1)"
proof (cases "rest s")
  case Nil
  then show ?thesis by (simp add: next_ch_def rest_def)
next
  case (Cons c cs)
  then have "pos s < length (string s)"
    by (cases "pos s < length (string s)") (auto simp: rest_def)
  with Cons show ?thesis by (simp add: next_ch_def)
qed

lemma token_cases:
  assumes "token s st = (r, s', st')"
  shows "(fst (eatSpace s) \<and> s' = snd (eatSpace s))
       \<or> (\<exists>re \<in> {re_header, re_K, re_bar, re_note, re_accidental, re_number, re_rest, re_slur}.
             match re s = Some s')
       \<or> s' = skipToEnd s
       \<or> s' = snd (next_ch (snd (eatWhile (\<lambda>c. c \<noteq> CHR 0x22) (snd (next_ch s)))))
       \<or> s' = snd (next_ch s)"
  using assms unfolding token_def Let_def
  by (simp split: prod.splits bool.splits option.splits if_splits)

lemma token_props:
  assumes "token s st = (r, s', st')" and "pos s < length (string s)"
  shows "adv s s'"
proof -
  note c = token_cases[OF assms(1)]
  have e: "adv s (snd (eatSpace s))" if "fst (eatSpace s)"
    using that eatWhile_props[of isSpace s] assms(2) by (simp add: adv_def eatSpace_def)
  have m: "adv s s'"
    if "re \<in> {re_header, re_K, re_bar, re_note, re_accidental, re_number, re_rest, re_slur}"
      and "match re s = Some s'" for re
    using that by (auto simp: adv_def dest: match_facts)
  have k: "adv s (skipToEnd s)"
    using assms(2) by (simp add: adv_def skipToEnd_def)
  have n: "adv s (snd (next_ch s))"
    using next_ch_props[of s] assms(2) by (simp add: adv_def)
  have q: "adv s (snd (next_ch (snd (eatWhile (\<lambda>c. c \<noteq> CHR 0x22) (snd (next_ch s))))))"
    using next_ch_props[of s] assms(2)
      eatWhile_props[of "\<lambda>c. c \<noteq> CHR 0x22" "snd (next_ch s)"]
      next_ch_props[of "snd (eatWhile (\<lambda>c. c \<noteq> CHR 0x22) (snd (next_ch s)))"]
    by (simp add: adv_def)
  from c e m k n q show ?thesis by blast
qed

termination scan
  by (relation "measure (\<lambda>(s, st). length (string s) - pos s)")
     (auto simp: eol_def adv_def dest!: token_props[OF sym])

declare scan.simps [simp del]

subsection \<open>Spans, bounds and the claims about \<open>token\<close>\<close>

lemma take_drop_join: "a \<le> b \<Longrightarrow> take (b - a) (drop a xs) @ drop b xs = drop a xs"
proof -
  assume "a \<le> b"
  then have "drop b xs = drop (b - a) (drop a xs)" by simp
  then show ?thesis by (simp only: append_take_drop_id)
qed

lemma rest_Cons:
  "pos s < length (string s) \<Longrightarrow> rest s = (string s ! pos s) # drop (Suc (pos s)) (string s)"
  by (simp add: rest_def Cons_nth_drop_Suc)

lemma scan_unfold:
  assumes "\<not> eol s" and "token s st = (r, s', st')" and "scan s' st' = (steps, fin)"
  shows "scan s st = ((r, pos s, pos s', st') # steps, fin)"
  by (subst scan.simps) (simp add: assms)

lemma scan_spans:
  "pos s \<le> length (string s) \<Longrightarrow>
     contiguous (pos s) (fst (scan s st)) (length (string s))
     \<and> concat (map (span (string s)) (fst (scan s st))) = drop (pos s) (string s)"
proof (induction s st rule: scan.induct)
  case (1 s st)
  show ?case
  proof (cases "eol s")
    case True
    with 1(2) show ?thesis by (subst scan.simps, subst scan.simps) (simp add: eol_def)
  next
    case False
    obtain r s' st' where t: "token s st = (r, s', st')" by (cases "token s st") auto
    from False have lt: "pos s < length (string s)" by (simp add: eol_def)
    from token_props[OF t lt]
    have a: "string s' = string s" "pos s < pos s'" "pos s' \<le> length (string s)"
      by (auto simp: adv_def)
    obtain steps fin where sc: "scan s' st' = (steps, fin)" by (cases "scan s' st'") auto
    from 1(1)[OF False t[symmetric] refl] a sc
    have ih: "contiguous (pos s') steps (length (string s))"
      "concat (map (span (string s)) steps) = drop (pos s') (string s)" by auto
    have eq: "fst (scan s st) = (r, pos s, pos s', st') # steps"
      by (simp add: scan_unfold[OF False t sc])
    have sp: "span (string s) (r, pos s, pos s', st')
                = take (pos s' - pos s) (drop (pos s) (string s))"
      by (simp add: span_def)
    show ?thesis using ih a take_drop_join[of "pos s" "pos s'" "string s"]
      by (simp add: eq sp)
  qed
qed

lemma scan_length: "length (fst (scan s st)) \<le> length (string s) - pos s"
proof (induction s st rule: scan.induct)
  case (1 s st)
  show ?case
  proof (cases "eol s")
    case True
    then show ?thesis by (subst scan.simps) simp
  next
    case False
    obtain r s' st' where t: "token s st = (r, s', st')" by (cases "token s st") auto
    from False have lt: "pos s < length (string s)" by (simp add: eol_def)
    from token_props[OF t lt]
    have a: "string s' = string s" "pos s < pos s'" "pos s' \<le> length (string s)"
      by (auto simp: adv_def)
    obtain steps fin where sc: "scan s' st' = (steps, fin)" by (cases "scan s' st'") auto
    from 1(1)[OF False t[symmetric] refl] a sc
    have ih: "length steps \<le> length (string s) - pos s'" by auto
    have eq: "fst (scan s st) = (r, pos s, pos s', st') # steps"
      by (simp add: scan_unfold[OF False t sc])
    show ?thesis using ih a by (simp add: eq)
  qed
qed

lemma splitLines_length: "sum_list (map length (splitLines cur cs)) \<le> length cur + length cs"
  by (induction cur cs rule: splitLines.induct) auto

lemma parseLines_length:
  "length (concat (fst (parseLines ls st))) \<le> sum_list (map length ls)"
proof (induction ls arbitrary: st)
  case Nil
  show ?case by simp
next
  case (Cons l ls)
  obtain steps st' where t: "tokenizeLine l st = (steps, st')"
    by (cases "tokenizeLine l st") auto
  obtain others fin where p: "parseLines ls st' = (others, fin)"
    by (cases "parseLines ls st'") auto
  from scan_length[of "\<lparr>string = l, pos = 0\<rparr>" st] t have "length steps \<le> length l"
    by (simp add: tokenizeLine_def)
  moreover from Cons[of st'] p have "length (concat others) \<le> sum_list (map length ls)"
    by simp
  ultimately show ?case by (simp add: t p)
qed

text \<open>
  In a document the same holds line by line: the steps of each line cover that line. The
  line breaks themselves are skipped by the driver and belong to no step.
\<close>

lemma parseLines_spans:
  "list_all2 (\<lambda>l steps. contiguous 0 steps (length l) \<and> concat (map (span l) steps) = l)
     ls (fst (parseLines ls st))"
proof (induction ls arbitrary: st)
  case Nil
  show ?case by simp
next
  case (Cons l ls)
  obtain steps st' where t: "tokenizeLine l st = (steps, st')"
    by (cases "tokenizeLine l st") auto
  obtain others fin where p: "parseLines ls st' = (others, fin)"
    by (cases "parseLines ls st'") auto
  from scan_spans[of "\<lparr>string = l, pos = 0\<rparr>" st] t
  have "contiguous 0 steps (length l) \<and> concat (map (span l) steps) = l"
    by (simp add: tokenizeLine_def)
  moreover from Cons[of st'] p have "list_all2
      (\<lambda>l steps. contiguous 0 steps (length l) \<and> concat (map (span l) steps) = l) ls others"
    by simp
  ultimately show ?case by (simp add: t p)
qed

text \<open>
  C2, evaluated on the code. The example text is tokenized line by line from \<open>startState\<close>.
  The styles are as the claim lists them: \<open>keyword\<close> (header) for \<open>X:\<close>, \<open>T:\<close> and \<open>K:\<close>,
  then \<open>variableName\<close> (note) for \<open>A\<close>, \<open>B\<close>, \<open>C\<close>, \<open>operator\<close> (bar) for \<open>|\<close> and
  \<open>variableName\<close> for \<open>d\<close>, \<open>e\<close>, \<open>f\<close>. But \<open>inHeader\<close> is still true after the \<open>K:\<close>
  token and at the end of the text: \<open>K:\<close> at the start of a line inside the header is
  taken by the branch for any header field, which returns before the branch that clears
  \<open>inHeader\<close> is reached.
\<close>

theorem header_K_keeps_inHeader:
  "lexemes ''X:1\<newline>T:Title\<newline>K:C\<newline>ABC|def'' =
     [[(Some ''keyword'', ''X:'', True), (Some ''number'', ''1'', True)],
      [(Some ''keyword'', ''T:'', True), (None, ''T'', True), (None, ''i'', True),
       (None, ''t'', True), (None, ''l'', True), (Some ''variableName'', ''e'', True)],
      [(Some ''keyword'', ''K:'', True), (Some ''variableName'', ''C'', True)],
      [(Some ''variableName'', ''A'', True), (Some ''variableName'', ''B'', True),
       (Some ''variableName'', ''C'', True), (Some ''operator'', ''|'', True),
       (Some ''variableName'', ''d'', True), (Some ''variableName'', ''e'', True),
       (Some ''variableName'', ''f'', True)]]
   \<and> inHeader (snd (tokenize ''X:1\<newline>T:Title\<newline>K:C\<newline>ABC|def'')) = True
   \<and> token \<lparr>string = ''K:C'', pos = 0\<rparr> startState
       = (Some ''keyword'', \<lparr>string = ''K:C'', pos = 2\<rparr>, startState)"
  by code_simp

text \<open>
  C3. For every text put in a stream and scanned from its beginning (from \<open>startState\<close>, and
  from any other scanner state too), the steps are contiguous and non-overlapping: the
  first begins at offset 0, each begins where the one before ended and is non-empty, the
  last ends at the end of the text; and the consumed spans, concatenated, are the text.
  The last conjunct is the same for a document that the driver cuts into lines: the steps
  of every line cover that line.
\<close>

theorem tokenizer_spans_roundtrip:
  "contiguous 0 (fst (tokenizeLine text startState)) (length text)
   \<and> concat (map (span text) (fst (tokenizeLine text startState))) = text
   \<and> contiguous 0 (fst (tokenizeLine text st)) (length text)
   \<and> concat (map (span text) (fst (tokenizeLine text st))) = text
   \<and> list_all2 (\<lambda>l steps. contiguous 0 steps (length l) \<and> concat (map (span l) steps) = l)
         (splitLines [] text) (fst (tokenize text))"
  using scan_spans[of "\<lparr>string = text, pos = 0\<rparr>" st]
    scan_spans[of "\<lparr>string = text, pos = 0\<rparr>" startState]
    parseLines_spans[of "splitLines [] text" startState]
  by (simp add: tokenizeLine_def tokenize_def)

text \<open>
  C4. In every scanner state, a call of \<open>token\<close> on a stream that is not at its end moves
  the position forward by at least one character, stays inside the string and leaves the
  string alone; so a scan of the unread part takes at most as many steps as it has
  characters, and a scan of a whole text at most \<open>length text\<close> steps, whether the text
  is one stream or a document cut into lines. (That the scan returns at all is the
  termination proof of \<open>scan\<close>.)
\<close>

theorem token_progress_scan_bound:
  "(\<not> eol s \<longrightarrow> pos s < pos (fst (snd (token s st)))
                 \<and> pos (fst (snd (token s st))) \<le> length (string s)
                 \<and> string (fst (snd (token s st))) = string s)
   \<and> length (fst (scan s st)) \<le> length (string s) - pos s
   \<and> length (fst (tokenizeLine text st)) \<le> length text
   \<and> length (concat (fst (tokenize text))) \<le> length text"
proof -
  have "adv s (fst (snd (token s st)))" if "\<not> eol s"
    using that
      token_props[of s st "fst (token s st)" "fst (snd (token s st))" "snd (snd (token s st))"]
    by (simp add: eol_def)
  moreover have "length (concat (fst (tokenize text))) \<le> length text"
    using parseLines_length[of "splitLines [] text" startState] splitLines_length[of "[]" "text"]
    by (simp add: tokenize_def)
  ultimately show ?thesis
    using scan_length[of s st] scan_length[of "\<lparr>string = text, pos = 0\<rparr>" st]
    by (simp add: adv_def tokenizeLine_def)
qed

theorem token_progress_scan_bound_witness:
  "\<not> eol \<lparr>string = ''A|'', pos = 0\<rparr>
   \<and> 0 < pos (fst (snd (token \<lparr>string = ''A|'', pos = 0\<rparr> startState)))
   \<and> length (fst (tokenizeLine ''A|'' startState)) \<le> 2
   \<and> length (concat (fst (tokenize ''A|''))) \<le> 2"
  using token_progress_scan_bound[of "\<lparr>string = ''A|'', pos = 0\<rparr>" startState "''A|''"]
  by (simp add: eol_def)

text \<open>
  C7, as the code has it. A step that begins at a whitespace character skips the whole
  whitespace run and returns \<open>null\<close>. A step that reaches the last branch on unread input
  consumes exactly one character and returns \<open>null\<close> as well: there is no style for plain
  text, and neither step yields a highlighted token.
\<close>

theorem whitespace_and_fallback_return_null:
  "(peek s = Some c \<and> isSpace c \<longrightarrow>
      token s st = (None, s\<lparr>pos := pos s + length (takeWhile isSpace (rest s))\<rparr>, st)
      \<and> 0 < length (takeWhile isSpace (rest s)))
   \<and> (fallback s st \<and> \<not> eol s \<longrightarrow> token s st = (None, s\<lparr>pos := pos s + 1\<rparr>, st))"
proof (intro conjI impI)
  assume a: "peek s = Some c \<and> isSpace c"
  then obtain cs where r: "rest s = c # cs" by (auto simp: peek_def split: list.splits)
  with a show "0 < length (takeWhile isSpace (rest s))" by simp
  with a r show "token s st = (None, s\<lparr>pos := pos s + length (takeWhile isSpace (rest s))\<rparr>, st)"
    by (simp add: token_def eatSpace_def eatWhile_def Let_def)
next
  assume f: "fallback s st \<and> \<not> eol s"
  then obtain c cs where r: "rest s = c # cs"
    by (cases "rest s") (auto simp: rest_def eol_def)
  have e: "eatSpace s = (False, snd (eatSpace s))"
    using f by (cases "eatSpace s") (auto simp: fallback_def)
  have n: "next_ch s = (Some c, s\<lparr>pos := pos s + 1\<rparr>)" by (simp add: next_ch_def r)
  from f have g: "\<not> (inHeader st \<and> sol s \<and> match re_header s \<noteq> None)" "match re_K s = None"
    "peek s \<noteq> Some CHR ''%''" "match re_bar s = None" "match re_note s = None"
    "match re_accidental s = None" "match re_number s = None" "match re_rest s = None"
    "peek s \<noteq> Some (CHR 0x22)" "match re_slur s = None"
    by (simp_all add: fallback_def)
  show "token s st = (None, s\<lparr>pos := pos s + 1\<rparr>, st)"
    unfolding token_def using g by (subst e) (auto simp: n)
qed

theorem whitespace_and_fallback_return_null_witness:
  "token \<lparr>string = '' h'', pos = 0\<rparr> startState = (None, \<lparr>string = '' h'', pos = 1\<rparr>, startState)
   \<and> token \<lparr>string = '' h'', pos = 1\<rparr> startState = (None, \<lparr>string = '' h'', pos = 2\<rparr>, startState)"
  using whitespace_and_fallback_return_null[of "\<lparr>string = '' h'', pos = 0\<rparr>" "CHR '' ''" startState]
    whitespace_and_fallback_return_null[of "\<lparr>string = '' h'', pos = 1\<rparr>" "CHR ''h''" startState]
  by (simp add: peek_def rest_def isSpace_def fallback_def eol_def eatSpace_def eatWhile_def
      sol_def match_def re_K_def re_bar_def re_note_def re_accidental_def re_number_def
      re_rest_def re_slur_def digits_def startState_def)

text \<open>
  C7 as stated fails. In the text \<open>'' h''\<close> the step at offset 0 begins at whitespace and
  the step at offset 1 reaches the last branch. Both return \<open>null\<close>, both consume one
  character and both leave the scanner state as it was: the second does not return a
  style for plain text, and nothing in what \<open>token\<close> returns tells the two apart.
\<close>

theorem fallback_is_not_plain_counterexample:
  "fst (eatSpace \<lparr>string = '' h'', pos = 0\<rparr>)
   \<and> fallback \<lparr>string = '' h'', pos = 1\<rparr> startState
   \<and> token \<lparr>string = '' h'', pos = 0\<rparr> startState = (None, \<lparr>string = '' h'', pos = 1\<rparr>, startState)
   \<and> token \<lparr>string = '' h'', pos = 1\<rparr> startState = (None, \<lparr>string = '' h'', pos = 2\<rparr>, startState)
   \<and> map fst (fst (tokenizeLine '' h'' startState)) = [None, None]"
  by code_simp

text \<open>
  C8. When the character under the position is a double quote and no double quote follows
  it in the stream, \<open>token\<close> returns the style \<open>string\<close> (a chord) and leaves the position at
  the end of the input; the scanner state is unchanged. The model has no failing branch
  here: the second \<open>stream.next()\<close>, at the end of the input, does nothing.
\<close>

theorem unterminated_chord:
  assumes "pos s < length (string s)"
    and "string s ! pos s = CHR 0x22"
    and "CHR 0x22 \<notin> set (drop (Suc (pos s)) (string s))"
  shows "token s st = (Some ''string'', s\<lparr>pos := length (string s)\<rparr>, st)"
proof -
  let ?cs = "drop (Suc (pos s)) (string s)"
  have r: "rest s = CHR 0x22 # ?cs" using rest_Cons[OF assms(1)] assms(2) by simp
  have tw: "takeWhile (\<lambda>c. c \<noteq> CHR 0x22) ?cs = ?cs"
    using assms(3) by (auto simp: takeWhile_eq_all_conv)
  have n1: "next_ch s = (Some (CHR 0x22), s\<lparr>pos := Suc (pos s)\<rparr>)"
    by (simp add: next_ch_def r)
  have e: "snd (eatWhile (\<lambda>c. c \<noteq> CHR 0x22) (s\<lparr>pos := Suc (pos s)\<rparr>))
             = s\<lparr>pos := length (string s)\<rparr>"
    using assms(1) by (simp add: eatWhile_def rest_def tw Let_def)
  have n2: "next_ch (s\<lparr>pos := length (string s)\<rparr>) = (None, s\<lparr>pos := length (string s)\<rparr>)"
    by (simp add: next_ch_def rest_def)
  have sp: "eatSpace s = (False, s)"
    by (simp add: eatSpace_def eatWhile_def r isSpace_def)
  have m: "match re_header s = None" "match re_K s = None" "match re_bar s = None"
    "match re_note s = None" "match re_accidental s = None" "match re_number s = None"
    "match re_rest s = None"
    by (simp_all add: match_def r re_header_def re_K_def re_bar_def re_note_def
          re_accidental_def re_number_def re_rest_def digits_def split: list.splits)
  have p: "peek s = Some (CHR 0x22)" by (simp add: peek_def r)
  show ?thesis
    by (simp add: token_def sp m p n1 e n2)
qed

theorem unterminated_chord_witness:
  "token \<lparr>string = [CHR ''A'', CHR 0x22, CHR ''G'', CHR ''m'', CHR '' '', CHR ''c''], pos = 1\<rparr>
         startState
     = (Some ''string'',
        \<lparr>string = [CHR ''A'', CHR 0x22, CHR ''G'', CHR ''m'', CHR '' '', CHR ''c''], pos = 6\<rparr>,
        startState)"
  using unterminated_chord[of
      "\<lparr>string = [CHR ''A'', CHR 0x22, CHR ''G'', CHR ''m'', CHR '' '', CHR ''c''], pos = 1\<rparr>"
      startState]
  by simp


section \<open>Properties of the editor component\<close>

text \<open>
  No operation of the component sets \<open>isInternalChangeRef\<close>: it starts false and the only
  assignment to it, at the end of the \<open>selectedRange\<close> effect, stores false.
\<close>

lemma flag_never_set:
  assumes "\<not> isInternalChangeRef s"
  shows "\<not> isInternalChangeRef (fst (effect_mount e v c d s))"
    and "\<not> isInternalChangeRef (effect_cleanup i s)"
    and "\<not> isInternalChangeRef (effect_value m v s)"
    and "\<not> isInternalChangeRef (effect_disabled d s)"
    and "\<not> isInternalChangeRef (effect_selectedRange r s)"
    and "\<not> isInternalChangeRef (timeout_focus s)"
    and "\<not> isInternalChangeRef (userSelection i a h s)"
    and "\<not> isInternalChangeRef (userEdit i t p s)"
  using assms
  by (auto simp: effect_mount_def effect_cleanup_def effect_value_def effect_disabled_def
      effect_selectedRange_def timeout_focus_def userSelection_def userEdit_def
      dispatchChanges_def dispatchSelection_def dispatchReconfigure_def Let_def
      split: option.splits list.splits)

lemma initial_flag: "\<not> isInternalChangeRef initial"
  by (simp add: initial_def)

text \<open>
  A text without a carriage return is stored as it is.
\<close>

lemma splitLines_nonempty: "splitLines cur cs \<noteq> []"
  by (induction cur cs rule: splitLines.induct) auto

lemma joinLines_Cons: "ls \<noteq> [] \<Longrightarrow> joinLines (l # ls) = l @ CHR 0x0A # joinLines ls"
  by (cases ls) auto

lemma joinLines_splitLines:
  "CHR 0x0D \<notin> set cs \<Longrightarrow> joinLines (splitLines cur cs) = rev cur @ cs"
  by (induction cur cs rule: splitLines.induct)
     (auto simp: joinLines_Cons splitLines_nonempty)

lemma docText_plain: "CHR 0x0D \<notin> set t \<Longrightarrow> docText t = t"
  by (simp add: docText_def joinLines_splitLines)

lemma mounted_facts:
  assumes "CHR 0x0D \<notin> set v"
  shows "viewRef (mounted v) = Some 0"
    and "\<not> isInternalChangeRef (mounted v)"
    and "views (mounted v) 0 = \<lparr>doc = v, anchor = 0, head = 0, editable = True,
                                destroyed = False, onSelectionChange_given = True\<rparr>"
    and "timers (mounted v) = []"
    and "trace (mounted v) = [Dispatch 0 (Reconfigure True)]"
  using docText_plain[OF assms]
  by (simp_all add: mounted_def effect_mount_def effect_value_def effect_disabled_def
      effect_selectedRange_def dispatchReconfigure_def updateListener_def initial_def Let_def)

text \<open>
  C1, as the code has it. For a valid external selection request on a mounted widget
  (\<open>0 \<le> from \<le> to \<le> documentLength\<close>), the selection is applied in one transaction and
  the listener forwards the resulting selection change to the host's \<open>onSelectionChange\<close>
  with \<open>(from, to)\<close>; the document is untouched. A selection change made by the user is
  forwarded in the same way. Nothing is suppressed.
\<close>

theorem external_selection_is_forwarded:
  assumes "viewRef s = Some i" and "\<not> isInternalChangeRef s"
    and "onSelectionChange_given (views s i)"
    and "0 \<le> from" and "from \<le> to" and "to \<le> int (length (doc (views s i)))"
  shows "trace (effect_selectedRange (Some (from, to)) s)
           = trace s @ [Dispatch i (Select (nat from) (nat to)),
                        OnSelectionChange (nat from) (nat to)]
         \<and> anchor (views (effect_selectedRange (Some (from, to)) s) i) = nat from
         \<and> head (views (effect_selectedRange (Some (from, to)) s) i) = nat to
         \<and> doc (views (effect_selectedRange (Some (from, to)) s) i) = doc (views s i)
         \<and> trace (userSelection i a h s) = trace s @ [OnSelectionChange (min a h) (max a h)]"
  using assms
  by (simp add: effect_selectedRange_def dispatchSelection_def updateListener_def
      userSelection_def Let_def)

theorem external_selection_is_forwarded_witness:
  "trace (effect_selectedRange (Some (2, 5)) (mounted ''0123456789''))
     = [Dispatch 0 (Reconfigure True), Dispatch 0 (Select 2 5), OnSelectionChange 2 5]
   \<and> trace (userSelection 0 7 3 (mounted ''0123456789''))
     = [Dispatch 0 (Reconfigure True), OnSelectionChange 3 7]"
  using external_selection_is_forwarded[of "mounted ''0123456789''" 0 2 5 7 3]
  by (simp add: mounted_facts)

text \<open>
  C1 as stated fails. On a mounted widget whose document has length 10, the request
  \<open>{from: 2, to: 5}\<close> is applied and the host's \<open>onSelectionChange\<close> is called with
  \<open>(2, 5)\<close> for this very event.
\<close>

theorem external_selection_not_suppressed_counterexample:
  "viewRef (mounted ''0123456789'') = Some 0
   \<and> length (doc (views (mounted ''0123456789'') 0)) = 10
   \<and> trace (mounted ''0123456789'') = [Dispatch 0 (Reconfigure True)]
   \<and> trace (effect_selectedRange (Some (2, 5)) (mounted ''0123456789''))
       = [Dispatch 0 (Reconfigure True), Dispatch 0 (Select 2 5), OnSelectionChange 2 5]"
  by (simp add: mounted_facts effect_selectedRange_def dispatchSelection_def updateListener_def
      Let_def)

text \<open>
  C5. On a mounted widget, an external selection request with \<open>from > to\<close>, a negative
  bound or a bound beyond the document length is rejected: the only effect is the
  warning, recorded with the two bounds and the document length. No transaction is
  dispatched, no focus is scheduled, and the widgets (document and selection) are as
  before.
\<close>

theorem invalid_selection_rejected:
  assumes "viewRef s = Some i" and "\<not> isInternalChangeRef s"
    and "f > t \<or> f < 0 \<or> t < 0
         \<or> f > int (length (doc (views s i))) \<or> t > int (length (doc (views s i)))"
  shows "effect_selectedRange (Some (f, t)) s
           = s\<lparr>trace := trace s @ [Warn f t (length (doc (views s i)))]\<rparr>"
  using assms by (auto simp: effect_selectedRange_def Let_def)

theorem invalid_selection_rejected_witness:
  "effect_selectedRange (Some (5, 2)) (mounted ''0123456789'')
     = (mounted ''0123456789'')\<lparr>trace := [Dispatch 0 (Reconfigure True), Warn 5 2 10]\<rparr>
   \<and> effect_selectedRange (Some (- 1, 3)) (mounted ''0123456789'')
     = (mounted ''0123456789'')\<lparr>trace := [Dispatch 0 (Reconfigure True), Warn (- 1) 3 10]\<rparr>"
  using invalid_selection_rejected[where s = "mounted ''0123456789''" and i = 0 and f = 5 and t = 2]
    invalid_selection_rejected[where s = "mounted ''0123456789''" and i = 0 and f = "- 1" and t = 3]
  by (simp add: mounted_facts)

text \<open>
  C6, as the code has it. On a mounted widget, an external content update with the text
  the widget already holds changes nothing (no transaction, no callback); with any other
  text it dispatches exactly one transaction, replacing offsets 0 to the prior length by
  the new text. After it the widget's text is the new text as the widget stores it, with
  every \<open>\r\n\<close> and \<open>\r\<close> turned into \<open>\n\<close>, and that is the text the listener reports
  to \<open>onChange\<close>; it is the new text itself when that has no carriage return.
\<close>

theorem external_content_update:
  assumes "viewRef s = Some i"
  shows "(doc (views s i) = val \<longrightarrow> effect_value mapPos val s = s)
       \<and> (doc (views s i) \<noteq> val \<longrightarrow>
            trace (effect_value mapPos val s)
              = trace s @ [Dispatch i (Changes 0 (length (doc (views s i))) val),
                           OnChange (docText val)]
            \<and> doc (views (effect_value mapPos val s) i) = docText val)
       \<and> (CHR 0x0D \<notin> set val \<longrightarrow> docText val = val)"
  using assms docText_plain[of val]
  by (auto simp: effect_value_def dispatchChanges_def updateListener_def Let_def)

theorem external_content_update_witness:
  "effect_value id ''0123456789'' (mounted ''0123456789'') = mounted ''0123456789''
   \<and> trace (effect_value id ''X:1'' (mounted ''0123456789''))
       = [Dispatch 0 (Reconfigure True), Dispatch 0 (Changes 0 10 ''X:1''), OnChange ''X:1'']
   \<and> doc (views (effect_value id ''X:1'' (mounted ''0123456789'')) 0) = ''X:1''"
  using external_content_update[of "mounted ''0123456789''" 0 "''0123456789''" id]
    external_content_update[of "mounted ''0123456789''" 0 "''X:1''" id]
  by (simp add: mounted_facts)

text \<open>
  C6 as stated fails. On a mounted widget holding \<open>0123456789\<close>, the update with the new
  text \<open>a\r\nb\<close> is dispatched as one replacement of offsets 0 to 10, but the widget's
  text afterwards is \<open>a\nb\<close>, which is not the new text, and \<open>onChange\<close> is called with
  \<open>a\nb\<close>.
\<close>

theorem external_content_not_stored_raw_counterexample:
  "trace (effect_value id [CHR ''a'', CHR 0x0D, CHR 0x0A, CHR ''b''] (mounted ''0123456789''))
     = [Dispatch 0 (Reconfigure True),
        Dispatch 0 (Changes 0 10 [CHR ''a'', CHR 0x0D, CHR 0x0A, CHR ''b'']),
        OnChange [CHR ''a'', CHR 0x0A, CHR ''b'']]
   \<and> doc (views (effect_value id [CHR ''a'', CHR 0x0D, CHR 0x0A, CHR ''b''] (mounted ''0123456789'')) 0)
     = [CHR ''a'', CHR 0x0A, CHR ''b'']
   \<and> doc (views (effect_value id [CHR ''a'', CHR 0x0D, CHR 0x0A, CHR ''b''] (mounted ''0123456789'')) 0)
     \<noteq> [CHR ''a'', CHR 0x0D, CHR 0x0A, CHR ''b'']"
  by (simp add: mounted_facts effect_value_def dispatchChanges_def updateListener_def docText_def
      Let_def)

text \<open>
  C9, as the code has it. The cleanup destroys the widget and clears \<open>viewRef\<close>; it leaves
  the pending focus callbacks scheduled, so a callback pending at the cleanup still fires
  afterwards and calls \<open>focus\<close> on the widget it captured. Running the cleanup a second
  time for the same widget leaves the widgets, the reference, the flag and the pending
  callbacks as the first run left them.
\<close>

theorem cleanup_keeps_pending_focus:
  "timers (effect_cleanup i s) = timers s
   \<and> viewRef (effect_cleanup i s) = None
   \<and> destroyed (views (effect_cleanup i s) i)
   \<and> (timers s = j # ts \<longrightarrow>
         trace (timeout_focus (effect_cleanup i s)) = trace s @ [Destroy i, Focus j]
         \<and> timers (timeout_focus (effect_cleanup i s)) = ts)
   \<and> views (effect_cleanup i (effect_cleanup i s)) = views (effect_cleanup i s)
   \<and> viewRef (effect_cleanup i (effect_cleanup i s)) = viewRef (effect_cleanup i s)
   \<and> timers (effect_cleanup i (effect_cleanup i s)) = timers (effect_cleanup i s)
   \<and> isInternalChangeRef (effect_cleanup i (effect_cleanup i s))
       = isInternalChangeRef (effect_cleanup i s)"
  by (simp add: effect_cleanup_def timeout_focus_def)

theorem cleanup_keeps_pending_focus_witness:
  "timers (effect_selectedRange (Some (2, 5)) (mounted ''AB|cde''))  = [0]
   \<and> trace (timeout_focus (effect_cleanup 0 (effect_selectedRange (Some (2, 5)) (mounted ''AB|cde''))))
       = [Dispatch 0 (Reconfigure True), Dispatch 0 (Select 2 5), OnSelectionChange 2 5,
          Destroy 0, Focus 0]
   \<and> timers (timeout_focus (effect_cleanup 0 (effect_selectedRange (Some (2, 5)) (mounted ''AB|cde''))))
       = []"
  using cleanup_keeps_pending_focus[of 0 "effect_selectedRange (Some (2, 5)) (mounted ''AB|cde'')" 0 "[]"]
  by (simp add: mounted_facts effect_selectedRange_def dispatchSelection_def updateListener_def
      Let_def)

text \<open>
  C9 as stated fails. After a valid selection request on a mounted widget one focus
  callback is pending; it is still pending after the cleanup, and when it fires it calls
  \<open>focus\<close> on the widget that was destroyed.
\<close>

theorem destroy_cancels_focus_counterexample:
  "timers (effect_selectedRange (Some (2, 5)) (mounted ''0123456789'')) = [0]
   \<and> timers (effect_cleanup 0 (effect_selectedRange (Some (2, 5)) (mounted ''0123456789''))) = [0]
   \<and> trace (timeout_focus
              (effect_cleanup 0 (effect_selectedRange (Some (2, 5)) (mounted ''0123456789''))))
       = [Dispatch 0 (Reconfigure True), Dispatch 0 (Select 2 5), OnSelectionChange 2 5,
          Destroy 0, Focus 0]"
  by (simp add: mounted_facts effect_selectedRange_def dispatchSelection_def updateListener_def
      effect_cleanup_def timeout_focus_def Let_def)

text \<open>
  C10. With \<open>selectedRange\<close> null or absent the effect dispatches nothing, schedules
  nothing and logs nothing: the widgets, the reference, the pending callbacks and the
  trace are unchanged. Its one assignment stores false in \<open>isInternalChangeRef\<close>, which
  holds false already (\<open>flag_never_set\<close>).
\<close>

theorem absent_selectedRange_no_action:
  "effect_selectedRange None s = s\<lparr>isInternalChangeRef := False\<rparr>
   \<and> views (effect_selectedRange None s) = views s
   \<and> viewRef (effect_selectedRange None s) = viewRef s
   \<and> timers (effect_selectedRange None s) = timers s
   \<and> trace (effect_selectedRange None s) = trace s"
  by (simp add: effect_selectedRange_def split: option.splits)

end
